theory Spec2Isabelle
  imports Complex_Main
begin

section \<open>JavaScript values of the in-memory server\<close>

text \<open>
  The in-memory variant is the Express server \<^verbatim>\<open>server.js\<close>. Its request bodies are
  parsed JSON, so a field read from a body is any JSON value. Strings are sequences of
  code units; the model keeps the code units below 256. Numbers are the finite values
  a JSON literal denotes.
\<close>

datatype json =
    JNull
  | JBool bool
  | JNum rat
  | JStr string
  | JArr "json list"
  | JObj "(string \<times> json) list"

text \<open>
  A parsed request body, read by destructuring (\<^verbatim>\<open>const { title } = req.body\<close>): a
  property that is absent reads as \<^verbatim>\<open>undefined\<close>, here \<open>None\<close>.
\<close>

type_synonym body = "string \<rightharpoonup> json"

text \<open>JavaScript truthiness, as \<^verbatim>\<open>!v\<close> and \<^verbatim>\<open>!!v\<close> use it.\<close>

fun truthy :: "json \<Rightarrow> bool" where
  "truthy JNull = False"
| "truthy (JBool b) = b"
| "truthy (JNum n) = (n \<noteq> 0)"
| "truthy (JStr s) = (s \<noteq> [])"
| "truthy (JArr xs) = True"
| "truthy (JObj kvs) = True"

text \<open>
  White space and line terminators that \<^verbatim>\<open>String.prototype.trim\<close> and \<^verbatim>\<open>parseInt\<close>
  strip: TAB, LF, VT, FF, CR, SPACE and NBSP.
\<close>

definition is_ws :: "char \<Rightarrow> bool" where
  "is_ws c = ((of_char c :: nat) \<in> set [9, 10, 11, 12, 13, 32, 160])"

definition trim :: "string \<Rightarrow> string" where
  "trim s = rev (dropWhile is_ws (rev (dropWhile is_ws s)))"

definition is_digit :: "char \<Rightarrow> bool" where
  "is_digit c = (48 \<le> (of_char c :: nat) \<and> (of_char c :: nat) \<le> 57)"

definition digits_val :: "string \<Rightarrow> nat" where
  "digits_val ds = foldl (\<lambda>a c. 10 * a + (of_char c - 48)) 0 ds"

text \<open>
  \<^verbatim>\<open>parseInt(str, 10)\<close>: leading white space is skipped, one sign is read, then the
  longest run of decimal digits; with no digit the result is \<^verbatim>\<open>NaN\<close>, here \<open>None\<close>.
  \<^verbatim>\<open>NaN\<close> is \<^verbatim>\<open>===\<close> to no number.
\<close>

definition parseInt :: "string \<Rightarrow> int option" where
  "parseInt str =
     (let s1 = dropWhile is_ws str;
          neg = (case s1 of [] \<Rightarrow> False | c # _ \<Rightarrow> c = CHR ''-'');
          s2 = (case s1 of [] \<Rightarrow> [] | c # r \<Rightarrow> if c = CHR ''-'' \<or> c = CHR ''+'' then r else s1);
          ds = takeWhile is_digit s2
      in if ds = [] then None
         else Some ((if neg then - 1 else 1) * int (digits_val ds)))"

section \<open>The in-memory store and its handlers\<close>

text \<open>
  A stored task is the object literal of the POST handler:
  \<^verbatim>\<open>{ id: nextId++, title: title.trim(), completed: false, createdAt: ... }\<close>.
  The PUT handler assigns to \<^verbatim>\<open>title\<close> whatever value the body carries, so \<open>title\<close>
  and \<open>completed\<close> are JSON values here; \<open>id_t\<close> is the field \<^verbatim>\<open>id\<close>.
  The counter is a natural number: the model covers stores whose counter stays in the
  range where a JavaScript number is an exact integer.
\<close>

record task =
  id_t :: nat
  title :: json
  completed :: json
  createdAt :: string

text \<open>The module-level state: \<^verbatim>\<open>let tasks = []; let nextId = 1;\<close>\<close>

record store =
  tasks :: "task list"
  nextId :: nat

definition init_store :: store where
  "init_store = \<lparr>tasks = [], nextId = 1\<rparr>"

text \<open>
  What a handler sends: \<^verbatim>\<open>res.status(n).json(v)\<close> (status 200 when none is set),
  \<^verbatim>\<open>res.sendFile(path)\<close>, or nothing because the handler threw (Express answers 500),
  or no route matched (Express answers with its own 404 page).
\<close>

datatype payload = OneTask task | TaskList "task list" | ErrorMsg string

datatype reply = Json nat payload | SendFile string | Thrown string | NoRoute

text \<open>
  The JSON object that \<^verbatim>\<open>res.json(task)\<close> writes: the four properties of the object
  literal of the POST handler, which are all the properties a stored task ever has,
  since the PUT handler assigns to \<^verbatim>\<open>title\<close> and \<^verbatim>\<open>completed\<close> only.
\<close>

definition task_json :: "task \<Rightarrow> (string \<times> json) list" where
  "task_json t =
     [(''id'', JNum (of_nat (id_t t))), (''title'', title t), (''completed'', completed t),
      (''createdAt'', JStr (createdAt t))]"

text \<open>\<^verbatim>\<open>Array.prototype.findIndex\<close>, with \<open>None\<close> for \<^verbatim>\<open>-1\<close>.\<close>

fun findIndex :: "('a \<Rightarrow> bool) \<Rightarrow> 'a list \<Rightarrow> nat option" where
  "findIndex P [] = None"
| "findIndex P (x # xs) =
     (if P x then Some 0 else (case findIndex P xs of None \<Rightarrow> None | Some i \<Rightarrow> Some (Suc i)))"

text \<open>
  \<^verbatim>\<open>tasks.find(...)\<close> returns the array's own element, so the assignments of the PUT
  handler change the stored record: the first element that satisfies the test.
\<close>

fun assign_found :: "('a \<Rightarrow> bool) \<Rightarrow> ('a \<Rightarrow> 'a) \<Rightarrow> 'a list \<Rightarrow> 'a list" where
  "assign_found P f [] = []"
| "assign_found P f (x # xs) = (if P x then f x # xs else x # assign_found P f xs)"

text \<open>\<^verbatim>\<open>t => t.id === id\<close> with \<open>id\<close> the result of \<^verbatim>\<open>parseInt\<close>.\<close>

definition has_id :: "int option \<Rightarrow> task \<Rightarrow> bool" where
  "has_id i t = (Some (int (id_t t)) = i)"

text \<open>\<^verbatim>\<open>app.get('/api/tasks', ...)\<close>\<close>

definition get_tasks :: "store \<Rightarrow> reply \<times> store" where
  "get_tasks s = (Json 200 (TaskList (tasks s)), s)"

text \<open>
  \<^verbatim>\<open>app.post('/api/tasks', ...)\<close>. The first argument is the value of
  \<^verbatim>\<open>new Date().toISOString()\<close>. A truthy title that is not a string has no \<^verbatim>\<open>trim\<close>
  method: the call throws a TypeError before anything is stored.
\<close>

definition post_tasks :: "string \<Rightarrow> body \<Rightarrow> store \<Rightarrow> reply \<times> store" where
  "post_tasks now b s =
     (case b ''title'' of
        None \<Rightarrow> (Json 400 (ErrorMsg ''title required''), s)
      | Some v \<Rightarrow>
          if \<not> truthy v then (Json 400 (ErrorMsg ''title required''), s)
          else (case v of
                  JStr str \<Rightarrow>
                    if trim str = [] then (Json 400 (ErrorMsg ''title required''), s)
                    else
                      (let t = \<lparr>id_t = nextId s, title = JStr (trim str),
                                completed = JBool False, createdAt = now\<rparr>
                       in (Json 201 (OneTask t),
                           s\<lparr>tasks := tasks s @ [t], nextId := nextId s + 1\<rparr>))
                | _ \<Rightarrow> (Thrown ''TypeError'', s)))"

text \<open>The two conditional assignments of the PUT handler.\<close>

definition assign_fields :: "body \<Rightarrow> task \<Rightarrow> task" where
  "assign_fields b t =
     (let t1 = (case b ''title'' of None \<Rightarrow> t | Some v \<Rightarrow> t\<lparr>title := v\<rparr>)
      in (case b ''completed'' of None \<Rightarrow> t1 | Some c \<Rightarrow> t1\<lparr>completed := JBool (truthy c)\<rparr>))"

text \<open>\<^verbatim>\<open>app.put('/api/tasks/:id', ...)\<close>; the first argument is \<^verbatim>\<open>req.params.id\<close>.\<close>

definition put_task :: "string \<Rightarrow> body \<Rightarrow> store \<Rightarrow> reply \<times> store" where
  "put_task p b s =
     (let i = parseInt p in
      case find (has_id i) (tasks s) of
        None \<Rightarrow> (Json 404 (ErrorMsg ''not found''), s)
      | Some t \<Rightarrow>
          (Json 200 (OneTask (assign_fields b t)),
           s\<lparr>tasks := assign_found (has_id i) (assign_fields b) (tasks s)\<rparr>))"

text \<open>
  \<^verbatim>\<open>app.delete('/api/tasks/:id', ...)\<close>: \<^verbatim>\<open>tasks.splice(idx, 1)[0]\<close> removes the
  element at \<open>idx\<close> and yields it.
\<close>

definition delete_task :: "string \<Rightarrow> store \<Rightarrow> reply \<times> store" where
  "delete_task p s =
     (let i = parseInt p in
      case findIndex (has_id i) (tasks s) of
        None \<Rightarrow> (Json 404 (ErrorMsg ''not found''), s)
      | Some idx \<Rightarrow>
          (Json 200 (OneTask (tasks s ! idx)),
           s\<lparr>tasks := take idx (tasks s) @ drop (Suc idx) (tasks s)\<rparr>))"

text \<open>
  The routes in the order the server registers them. A path is the list of its
  segments, none of them empty, with the fixed segments in the lower case in which
  Express compares them; the segment \<^verbatim>\<open>:id\<close> is \<^verbatim>\<open>req.params.id\<close>. Every GET that is not
  the list route reaches the catch-all \<^verbatim>\<open>app.get('*', ...)\<close>, which sends the page; the
  server registers no route \<^verbatim>\<open>GET /api/tasks/:id\<close>. Files served from \<^verbatim>\<open>public/\<close> are
  not modelled: the directory is taken to hold nothing under \<^verbatim>\<open>api/\<close>.
\<close>

datatype request =
    GET "string list"
  | POST "string list" body
  | PUT "string list" body
  | DELETE "string list"

fun handle :: "string \<Rightarrow> request \<Rightarrow> store \<Rightarrow> reply \<times> store" where
  "handle now (GET path) s =
     (if path = [''api'', ''tasks''] then get_tasks s
      else (SendFile ''public/index.html'', s))"
| "handle now (POST path b) s =
     (if path = [''api'', ''tasks''] then post_tasks now b s else (NoRoute, s))"
| "handle now (PUT path b) s =
     (case path of
        [a, t, p] \<Rightarrow> if a = ''api'' \<and> t = ''tasks'' then put_task p b s else (NoRoute, s)
      | _ \<Rightarrow> (NoRoute, s))"
| "handle now (DELETE path) s =
     (case path of
        [a, t, p] \<Rightarrow> if a = ''api'' \<and> t = ''tasks'' then delete_task p s else (NoRoute, s)
      | _ \<Rightarrow> (NoRoute, s))"

text \<open>
  A run of the server: each request is handled to completion on the state the previous
  one left, with the clock value read while handling it.
\<close>

fun run :: "(string \<times> request) list \<Rightarrow> store \<Rightarrow> store" where
  "run [] s = s"
| "run ((now, rq) # rest) s = run rest (snd (handle now rq s))"

text \<open>The ids of the records that the successful creations of a run returned, in order.\<close>

fun created_ids :: "(string \<times> request) list \<Rightarrow> store \<Rightarrow> nat list" where
  "created_ids [] s = []"
| "created_ids ((now, rq) # rest) s =
     (case handle now rq s of
        (Json st (OneTask t), s') \<Rightarrow>
          (if st = 201 then [id_t t] else []) @ created_ids rest s'
      | (_, s') \<Rightarrow> created_ids rest s')"

section \<open>The JPA-backed variant\<close>

text \<open>
  The second variant is the Spring controller \<^verbatim>\<open>TaskController.java\<close>. It works on a
  \<^verbatim>\<open>Task\<close> entity and a \<^verbatim>\<open>TaskRepository\<close>, both of this repository, whose sources are
  not at hand; the controller's methods are embedded from the source on top of them.
\<close>

datatype TaskStatus = TODO | IN_PROGRESS | DONE

type_synonym LocalDate = "int \<times> nat \<times> nat"

text \<open>
  Modelled from the spec: the \<^verbatim>\<open>Task\<close> entity of \<^verbatim>\<open>Task.java\<close>, which is missing.
  Section 3 of the spec gives its attributes; \<open>None\<close> is Java's \<^verbatim>\<open>null\<close>. The fields
  are named after the getters the controller calls.
\<close>

record Task =
  getId :: "int option"
  getTitle :: "string option"
  getDescription :: "string option"
  getStatus :: TaskStatus
  getDueDate :: "LocalDate option"

text \<open>
  Modelled from the spec: the JSON body of a POST or PUT, ``Task fields (title
  required)'' in section 6, with \<open>None\<close> for a field the body omits. Its shape is fixed
  by the missing \<^verbatim>\<open>Task.java\<close>.
\<close>

record TaskFields =
  f_title :: "string option"
  f_description :: "string option"
  f_status :: "TaskStatus option"
  f_dueDate :: "LocalDate option"

text \<open>
  Modelled from the spec: the \<^verbatim>\<open>Task\<close> that \<^verbatim>\<open>@RequestBody\<close> builds from a body, which is
  missing with \<^verbatim>\<open>Task.java\<close>. The id is the store's to assign, title and description
  are trimmed (section 4.1: ``applies trim to title/description''), and \<^verbatim>\<open>status\<close>
  ``defaults to TODO when omitted''.
\<close>

definition fromBody :: "TaskFields \<Rightarrow> Task" where
  "fromBody b =
     \<lparr>getId = None, getTitle = map_option trim (f_title b),
      getDescription = map_option trim (f_description b),
      getStatus = (case f_status b of None \<Rightarrow> TODO | Some st \<Rightarrow> st),
      getDueDate = f_dueDate b\<rparr>"

text \<open>
  Modelled from the spec: what \<^verbatim>\<open>@Valid\<close> checks, the constraints declared in the
  missing \<^verbatim>\<open>Task.java\<close>. Section 4.1: ``title: required, trimmed length in [1, 100]''
  and ``description: optional, trimmed length \<le> 500''.
\<close>

definition valid :: "Task \<Rightarrow> bool" where
  "valid t =
     ((case getTitle t of
         None \<Rightarrow> False
       | Some s \<Rightarrow> 1 \<le> length (trim s) \<and> length (trim s) \<le> 100) \<and>
      (case getDescription t of
         None \<Rightarrow> True
       | Some d \<Rightarrow> length (trim d) \<le> 500))"

text \<open>
  Modelled from the spec: the \<^verbatim>\<open>TaskRepository\<close>, whose declaration is missing, as
  the Task Store of section 4.1: the rows in insertion order and the generator of ids
  (``assigns a new unique id'', ``never reused after deletion'').
  Saving a record that has no id, or whose id names no row, inserts it under a new
  id; saving a record whose id names a row overwrites that row.
\<close>

record TaskRepository =
  rows :: "Task list"
  sequence :: int

text \<open>Modelled from the spec: the repository before the first request, with no rows.\<close>

definition empty_repository :: TaskRepository where
  "empty_repository = \<lparr>rows = [], sequence = 1\<rparr>"

text \<open>
  Modelled from the spec: \<^verbatim>\<open>repository.findById\<close>, the lookup ``by exact id match'' of
  section 4.1.
\<close>

definition findById :: "TaskRepository \<Rightarrow> int \<Rightarrow> Task option" where
  "findById r i = find (\<lambda>t. getId t = Some i) (rows r)"

text \<open>
  Modelled from the spec: the insertion of a new row, which ``assigns a new unique id''
  and ``appends to the collection''.
\<close>

definition insert_row :: "TaskRepository \<Rightarrow> Task \<Rightarrow> Task \<times> TaskRepository" where
  "insert_row r t =
     (let t' = t\<lparr>getId := Some (sequence r)\<rparr>
      in (t', r\<lparr>rows := rows r @ [t'], sequence := sequence r + 1\<rparr>))"

text \<open>
  Modelled from the spec: \<^verbatim>\<open>repository.save\<close>, which returns the stored record. The
  controller calls it with a new record (create) and with a row it has just found
  (update).
\<close>

definition save :: "TaskRepository \<Rightarrow> Task \<Rightarrow> Task \<times> TaskRepository" where
  "save r t =
     (case getId t of
        None \<Rightarrow> insert_row r t
      | Some i \<Rightarrow>
          (case findById r i of
             None \<Rightarrow> insert_row r t
           | Some _ \<Rightarrow>
               (t, r\<lparr>rows := map (\<lambda>x. if getId x = Some i then t else x) (rows r)\<rparr>)))"

text \<open>Modelled from the spec: \<^verbatim>\<open>repository.deleteById\<close>, which removes the row of that id.\<close>

definition deleteById :: "TaskRepository \<Rightarrow> int \<Rightarrow> TaskRepository" where
  "deleteById r i = r\<lparr>rows := filter (\<lambda>t. getId t \<noteq> Some i) (rows r)\<rparr>"

text \<open>
  The controller's answers: \<^verbatim>\<open>ResponseEntity.ok(t)\<close>, \<^verbatim>\<open>created(uri).body(t)\<close>,
  \<^verbatim>\<open>noContent()\<close>, \<^verbatim>\<open>notFound()\<close>, and the 400 that Spring sends when \<^verbatim>\<open>@Valid\<close>
  rejects the body. The \<^verbatim>\<open>Location\<close> of a created task repeats the id of its body and
  is left out.
\<close>

datatype ResponseEntity = Ok Task | Created Task | NoContent | NotFound | BadRequest

text \<open>\<^verbatim>\<open>TaskController.getById\<close>\<close>

definition getById :: "TaskRepository \<Rightarrow> int \<Rightarrow> ResponseEntity" where
  "getById r i = (case findById r i of Some t \<Rightarrow> Ok t | None \<Rightarrow> NotFound)"

text \<open>\<^verbatim>\<open>TaskController.create\<close>\<close>

definition create :: "TaskRepository \<Rightarrow> TaskFields \<Rightarrow> ResponseEntity \<times> TaskRepository" where
  "create r b =
     (let task = fromBody b in
      if \<not> valid task then (BadRequest, r)
      else (let (saved, r') = save r task in (Created saved, r')))"

text \<open>
  \<^verbatim>\<open>TaskController.update\<close>: the four setters on the row that was found, then
  \<^verbatim>\<open>repository.save(existing)\<close>. The body is validated before the method runs.
\<close>

definition update :: "TaskRepository \<Rightarrow> int \<Rightarrow> TaskFields \<Rightarrow> ResponseEntity \<times> TaskRepository" where
  "update r i b =
     (let incoming = fromBody b in
      if \<not> valid incoming then (BadRequest, r)
      else (case findById r i of
              None \<Rightarrow> (NotFound, r)
            | Some existing \<Rightarrow>
                (let e = existing\<lparr>getTitle := getTitle incoming,
                                  getDescription := getDescription incoming,
                                  getStatus := getStatus incoming,
                                  getDueDate := getDueDate incoming\<rparr>;
                     (saved, r') = save r e
                 in (Ok saved, r'))))"

text \<open>\<^verbatim>\<open>TaskController.delete\<close>\<close>

definition delete :: "TaskRepository \<Rightarrow> int \<Rightarrow> ResponseEntity \<times> TaskRepository" where
  "delete r i =
     (case findById r i of
        None \<Rightarrow> (NotFound, r)
      | Some t \<Rightarrow> (NoContent, deleteById r i))"

text \<open>The calls a client can make on the controller, and a run of them.\<close>

datatype call = Create TaskFields | Update int TaskFields | Delete int

fun perform :: "call \<Rightarrow> TaskRepository \<Rightarrow> ResponseEntity \<times> TaskRepository" where
  "perform (Create b) r = create r b"
| "perform (Update i b) r = update r i b"
| "perform (Delete i) r = delete r i"

fun perform_all :: "call list \<Rightarrow> TaskRepository \<Rightarrow> TaskRepository" where
  "perform_all [] r = r"
| "perform_all (c # cs) r = perform_all cs (snd (perform c r))"

section \<open>Predicates on stores\<close>

text \<open>A JavaScript boolean.\<close>

definition is_boolean :: "json \<Rightarrow> bool" where
  "is_boolean v = (case v of JBool _ \<Rightarrow> True | _ \<Rightarrow> False)"

text \<open>
  A title as it should be stored: a string that is not empty and is its own trimmed
  form.
\<close>

definition title_ok :: "task \<Rightarrow> bool" where
  "title_ok t = (case title t of JStr str \<Rightarrow> str \<noteq> [] \<and> trim str = str | _ \<Rightarrow> False)"

text \<open>
  The ids of the stored tasks are pairwise different and all below the counter: the
  invariant of the in-memory store.
\<close>

definition store_ok :: "store \<Rightarrow> bool" where
  "store_ok s = (distinct (map id_t (tasks s)) \<and> list_all (\<lambda>t. id_t t < nextId s) (tasks s))"

text \<open>An id that the counter has passed and that no stored task holds.\<close>

definition retired :: "nat \<Rightarrow> store \<Rightarrow> bool" where
  "retired n s = (n < nextId s \<and> \<not> list_ex (\<lambda>t. id_t t = n) (tasks s))"

text \<open>The same invariant for the repository: every row has an id, below the generator.\<close>

definition repository_ok :: "TaskRepository \<Rightarrow> bool" where
  "repository_ok r =
     (distinct (map getId (rows r)) \<and>
      list_all (\<lambda>t. case getId t of None \<Rightarrow> False | Some i \<Rightarrow> i < sequence r) (rows r))"

definition retired_row :: "int \<Rightarrow> TaskRepository \<Rightarrow> bool" where
  "retired_row i r = (i < sequence r \<and> \<not> list_ex (\<lambda>t. getId t = Some i) (rows r))"

text \<open>
  The ids of the records that the successful creations of a run of the controller
  returned, in order; \<open>None\<close> would be a record returned without an id.
\<close>

fun created_keys :: "call list \<Rightarrow> TaskRepository \<Rightarrow> int option list" where
  "created_keys [] r = []"
| "created_keys (c # cs) r =
     (case perform c r of
        (Created t, r') \<Rightarrow> getId t # created_keys cs r'
      | (_, r') \<Rightarrow> created_keys cs r')"

section \<open>Evaluation of the model on concrete requests\<close>

lemmas js_eval = trim_def is_ws_def is_digit_def digits_val_def parseInt_def Let_def
  init_store_def post_tasks_def put_task_def delete_task_def get_tasks_def
  assign_fields_def has_id_def

lemmas jpa_eval = trim_def is_ws_def Let_def empty_repository_def fromBody_def valid_def
  findById_def insert_row_def save_def deleteById_def getById_def create_def update_def
  delete_def

section \<open>Lemmas about the two stores\<close>

subsection \<open>Trimming\<close>


lemma trim_trim: "trim (trim s) = trim s"
proof -
  let ?u = "dropWhile is_ws s"
  let ?v = "dropWhile is_ws (rev ?u)"
  have front: "dropWhile is_ws (rev ?v) = rev ?v"
  proof (cases "?v = []")
    case True
    show ?thesis unfolding True by simp
  next
    case False
    have split: "rev ?u = takeWhile is_ws (rev ?u) @ ?v"
      by simp
    have "?u \<noteq> []"
    proof
      assume e: "?u = []"
      have "?v = []" unfolding e by simp
      with False show False by blast
    qed
    then have "\<not> is_ws (hd ?u)"
      by (rule hd_dropWhile)
    moreover have "last ?v = last (rev ?u)"
      using False split by (metis last_appendR)
    moreover have "last (rev ?u) = hd ?u"
      using \<open>?u \<noteq> []\<close> by (simp add: last_rev)
    ultimately have "\<not> is_ws (hd (rev ?v))"
      using False by (simp add: hd_rev)
    then show ?thesis
      by (simp add: dropWhile_eq_self_iff)
  qed
  show ?thesis
    unfolding trim_def front by simp
qed

subsection \<open>findIndex, find and assign_found\<close>

lemma findIndex_None: "findIndex P xs = None \<longleftrightarrow> \<not> list_ex P xs"
  by (induction xs) (auto split: option.splits)

lemma findIndex_Some:
  "findIndex P xs = Some i \<Longrightarrow> i < length xs \<and> P (xs ! i) \<and> find P xs = Some (xs ! i)"
  by (induction xs arbitrary: i) (auto split: option.splits if_splits)

lemma find_None_list_ex: "find P xs = None \<longleftrightarrow> \<not> list_ex P xs"
  by (auto simp: find_None_iff list_ex_iff)

lemma map_assign_found:
  "(\<And>x. g (f x) = g x) \<Longrightarrow> map g (assign_found P f xs) = map g xs"
  by (induction xs) auto

lemma list_all_assign_found:
  "list_all Q xs \<Longrightarrow> (\<And>x. Q x \<Longrightarrow> Q (f x)) \<Longrightarrow> list_all Q (assign_found P f xs)"
  by (induction xs) auto

lemma assign_fields_id [simp]: "id_t (assign_fields b t) = id_t t"
  by (simp add: assign_fields_def split: option.splits)

lemma assign_fields_createdAt [simp]: "createdAt (assign_fields b t) = createdAt t"
  by (simp add: assign_fields_def split: option.splits)

lemma ids_put_task: "map id_t (tasks (snd (put_task p b s))) = map id_t (tasks s)"
  by (simp add: put_task_def Let_def map_assign_found split: option.splits)

lemma stamps_put_task: "map createdAt (tasks (snd (put_task p b s))) = map createdAt (tasks s)"
  by (simp add: put_task_def Let_def map_assign_found split: option.splits)

lemma nextId_put_task [simp]: "nextId (snd (put_task p b s)) = nextId s"
  by (simp add: put_task_def Let_def split: option.splits)

lemma nextId_delete_task [simp]: "nextId (snd (delete_task p s)) = nextId s"
  by (simp add: delete_task_def Let_def split: option.splits)

lemma nextId_post_tasks: "nextId s \<le> nextId (snd (post_tasks now b s))"
  by (simp add: post_tasks_def Let_def split: option.splits json.splits)

lemma distinct_take_drop: "distinct (map g xs) \<Longrightarrow> distinct (map g (take k xs @ drop (Suc k) xs))"
proof -
  assume d: "distinct (map g xs)"
  have "map g xs = map g (take k xs) @ map g (drop k xs)"
    by (metis append_take_drop_id map_append)
  with d have a: "distinct (map g (take k xs))" and b: "distinct (map g (drop k xs))"
    and c: "set (map g (take k xs)) \<inter> set (map g (drop k xs)) = {}"
    by (metis distinct_append)+
  have sub: "set (drop (Suc k) xs) \<subseteq> set (drop k xs)"
    by (simp add: set_drop_subset_set_drop)
  have "distinct (map g (drop (Suc k) xs))"
    using d by (simp add: drop_map[symmetric])
  with a c sub show ?thesis by auto
qed


subsection \<open>The store invariant\<close>

lemma list_all_take_drop: "list_all Q xs \<Longrightarrow> list_all Q (take k xs @ drop (Suc k) xs)"
  by (auto simp: list_all_iff dest: in_set_takeD in_set_dropD)

lemma store_ok_init: "store_ok init_store"
  by (simp add: store_ok_def init_store_def)

lemma store_ok_post: "store_ok s \<Longrightarrow> store_ok (snd (post_tasks now b s))"
  by (auto simp: store_ok_def post_tasks_def Let_def list_all_iff
           split: option.splits json.splits)

lemma store_ok_put: "store_ok s \<Longrightarrow> store_ok (snd (put_task p b s))"
  unfolding store_ok_def
  by (auto simp: ids_put_task)
     (auto simp: put_task_def Let_def intro: list_all_assign_found split: option.splits)

lemma store_ok_delete: "store_ok s \<Longrightarrow> store_ok (snd (delete_task p s))"
proof (cases "findIndex (has_id (parseInt p)) (tasks s)")
  case None
  assume "store_ok s"
  with None show ?thesis by (simp add: delete_task_def)
next
  case (Some k)
  assume ok: "store_ok s"
  have t: "tasks (snd (delete_task p s)) = take k (tasks s) @ drop (Suc k) (tasks s)"
    using Some by (simp add: delete_task_def)
  have "distinct (map id_t (take k (tasks s) @ drop (Suc k) (tasks s)))"
    using ok unfolding store_ok_def by (blast intro: distinct_take_drop)
  moreover have "list_all (\<lambda>t. id_t t < nextId s) (take k (tasks s) @ drop (Suc k) (tasks s))"
    using ok unfolding store_ok_def by (blast intro: list_all_take_drop)
  ultimately show ?thesis
    unfolding store_ok_def t by simp
qed

lemma store_ok_handle: "store_ok s \<Longrightarrow> store_ok (snd (handle now rq s))"
  by (cases rq)
     (auto simp: store_ok_post store_ok_put store_ok_delete get_tasks_def split: list.splits)

lemma store_ok_run: "store_ok s \<Longrightarrow> store_ok (run ops s)"
  by (induction ops arbitrary: s) (auto simp: store_ok_handle)

lemma nextId_handle: "nextId s \<le> nextId (snd (handle now rq s))"
  by (cases rq) (auto simp: nextId_post_tasks get_tasks_def split: list.splits)


subsection \<open>Ids handed out by creations\<close>

lemma post_tasks_201:
  "post_tasks now b s = (Json st (OneTask t), s') \<Longrightarrow>
     st = 201 \<and> id_t t = nextId s \<and> nextId s' = Suc (nextId s) \<and> tasks s' = tasks s @ [t] \<and>
     completed t = JBool False \<and> createdAt t = now \<and>
     (\<exists>str. b ''title'' = Some (JStr str) \<and> trim str \<noteq> [] \<and> title t = JStr (trim str))"
  by (auto simp: post_tasks_def Let_def split: option.splits json.splits if_splits)

text \<open>A title that a creation stores is as it should be.\<close>

lemma created_title_ok: "post_tasks now b s = (Json st (OneTask t), s') \<Longrightarrow> title_ok t"
  using post_tasks_201 [of now b s st t s'] by (auto simp: title_ok_def trim_trim)

lemma put_task_not_201: "put_task p b s = (Json st pl, s') \<Longrightarrow> st \<noteq> 201"
  by (auto simp: put_task_def Let_def split: option.splits)

lemma delete_task_not_201: "delete_task p s = (Json st pl, s') \<Longrightarrow> st \<noteq> 201"
  by (auto simp: delete_task_def Let_def split: option.splits)

lemma handle_201:
  "handle now rq s = (Json 201 (OneTask t), s') \<Longrightarrow>
     id_t t = nextId s \<and> nextId s' = Suc (nextId s)"
  by (cases rq)
     (auto simp: get_tasks_def split: if_splits list.splits
           dest: post_tasks_201 put_task_not_201 delete_task_not_201)

lemma created_ids_increasing:
  "sorted_wrt (<) (created_ids ops s) \<and> list_all (\<lambda>i. nextId s \<le> i) (created_ids ops s)"
proof (induction ops arbitrary: s)
  case Nil
  show ?case by simp
next
  case (Cons op ops)
  obtain now rq where op: "op = (now, rq)" by (cases op)
  obtain r s' where h: "handle now rq s = (r, s')" by (cases "handle now rq s")
  have mono: "nextId s \<le> nextId s'"
    using nextId_handle [of s now rq] h by simp
  have rest: "sorted_wrt (<) (created_ids ops s')"
    and low: "list_all (\<lambda>i. nextId s' \<le> i) (created_ids ops s')"
    using Cons.IH [of s'] by simp_all
  have low': "list_all (\<lambda>i. nextId s \<le> i) (created_ids ops s')"
    using low mono by (auto simp: list_all_iff)
  show ?case
  proof (cases "\<exists>t. r = Json 201 (OneTask t)")
    case True
    then obtain t where r: "r = Json 201 (OneTask t)" by blast
    have "id_t t = nextId s" and "nextId s' = Suc (nextId s)"
      using handle_201 h r by blast+
    then have "list_all (\<lambda>i. id_t t < i) (created_ids ops s')"
      using low by (auto simp: list_all_iff)
    then show ?thesis
      using rest low' \<open>id_t t = nextId s\<close> by (simp add: op h r list_all_iff)
  next
    case False
    then have "created_ids (op # ops) s = created_ids ops s'"
      by (auto simp: op h split: reply.splits payload.splits)
    then show ?thesis using rest low' by simp
  qed
qed

subsection \<open>What an update changes\<close>

lemma has_id_assign_fields [simp]: "has_id i (assign_fields b t) = has_id i t"
  by (simp add: has_id_def)

lemma find_assign_found:
  "(\<And>x. P (f x) = P x) \<Longrightarrow> find P (assign_found P f xs) = map_option f (find P xs)"
  by (induction xs) auto

lemma filter_assign_found:
  "(\<And>x. P (f x) = P x) \<Longrightarrow>
     filter (\<lambda>x. \<not> P x) (assign_found P f xs) = filter (\<lambda>x. \<not> P x) xs"
  by (induction xs) auto

lemma length_assign_found [simp]: "length (assign_found P f xs) = length xs"
  by (induction xs) auto

lemma put_task_found:
  "find (has_id (parseInt p)) (tasks s) = Some t \<Longrightarrow>
     put_task p b s =
       (Json 200 (OneTask (assign_fields b t)),
        s\<lparr>tasks := assign_found (has_id (parseInt p)) (assign_fields b) (tasks s)\<rparr>)"
  by (simp add: put_task_def)

lemma put_task_missing:
  "find (has_id (parseInt p)) (tasks s) = None \<Longrightarrow>
     put_task p b s = (Json 404 (ErrorMsg ''not found''), s)"
  by (simp add: put_task_def)

subsection \<open>Booleans stay booleans\<close>

lemma booleans_post:
  "list_all (\<lambda>t. is_boolean (completed t)) (tasks s) \<Longrightarrow>
     list_all (\<lambda>t. is_boolean (completed t)) (tasks (snd (post_tasks now b s)))"
  by (auto simp: post_tasks_def Let_def is_boolean_def split: option.splits json.splits)

lemma is_boolean_assign_fields:
  "is_boolean (completed t) \<Longrightarrow> is_boolean (completed (assign_fields b t))"
  by (simp add: assign_fields_def is_boolean_def split: option.splits)

lemma booleans_put:
  "list_all (\<lambda>t. is_boolean (completed t)) (tasks s) \<Longrightarrow>
     list_all (\<lambda>t. is_boolean (completed t)) (tasks (snd (put_task p b s)))"
  by (auto simp: put_task_def Let_def is_boolean_assign_fields
           intro: list_all_assign_found split: option.splits)

lemma booleans_delete:
  "list_all (\<lambda>t. is_boolean (completed t)) (tasks s) \<Longrightarrow>
     list_all (\<lambda>t. is_boolean (completed t)) (tasks (snd (delete_task p s)))"
  by (auto simp: delete_task_def Let_def simp del: list_all_append
           intro: list_all_take_drop split: option.splits)

lemma booleans_handle:
  "list_all (\<lambda>t. is_boolean (completed t)) (tasks s) \<Longrightarrow>
     list_all (\<lambda>t. is_boolean (completed t)) (tasks (snd (handle now rq s)))"
  by (cases rq)
     (auto simp: booleans_post booleans_put booleans_delete get_tasks_def split: list.splits)

lemma booleans_run:
  "list_all (\<lambda>t. is_boolean (completed t)) (tasks s) \<Longrightarrow>
     list_all (\<lambda>t. is_boolean (completed t)) (tasks (run ops s))"
  by (induction ops arbitrary: s) (auto simp: booleans_handle)

subsection \<open>The repository\<close>

lemma findById_Some: "findById r i = Some t \<Longrightarrow> getId t = Some i \<and> t \<in> set (rows r)"
  by (auto simp: findById_def find_Some_iff)

lemma findById_None: "findById r i = None \<longleftrightarrow> \<not> list_ex (\<lambda>t. getId t = Some i) (rows r)"
  by (simp add: findById_def find_None_list_ex)

lemma create_Created:
  "create r fb = (Created t, r') \<Longrightarrow>
     valid (fromBody fb) \<and> t = (fromBody fb)\<lparr>getId := Some (sequence r)\<rparr> \<and>
     rows r' = rows r @ [t] \<and> sequence r' = sequence r + 1"
  by (auto simp: create_def save_def insert_row_def fromBody_def Let_def split: if_splits)

lemma create_cases:
  "create r fb = (if valid (fromBody fb)
     then (Created ((fromBody fb)\<lparr>getId := Some (sequence r)\<rparr>),
           r\<lparr>rows := rows r @ [(fromBody fb)\<lparr>getId := Some (sequence r)\<rparr>],
             sequence := sequence r + 1\<rparr>)
     else (BadRequest, r))"
  by (simp add: create_def save_def insert_row_def fromBody_def Let_def)

lemma save_existing:
  "findById r i = Some x \<Longrightarrow> getId e = Some i \<Longrightarrow>
     save r e = (e, r\<lparr>rows := map (\<lambda>x. if getId x = Some i then e else x) (rows r)\<rparr>)"
  by (simp add: save_def)

lemma update_cases:
  "update r i fb =
     (if \<not> valid (fromBody fb) then (BadRequest, r)
      else case findById r i of
        None \<Rightarrow> (NotFound, r)
      | Some existing \<Rightarrow>
          (let e = existing\<lparr>getTitle := getTitle (fromBody fb),
                            getDescription := getDescription (fromBody fb),
                            getStatus := getStatus (fromBody fb),
                            getDueDate := getDueDate (fromBody fb)\<rparr>
           in (Ok e, r\<lparr>rows := map (\<lambda>x. if getId x = Some i then e else x) (rows r)\<rparr>)))"
proof (cases "findById r i")
  case None
  then show ?thesis by (simp add: update_def Let_def)
next
  case (Some existing)
  then have "getId existing = Some i" by (simp add: findById_Some)
  then show ?thesis
    using Some by (simp add: update_def Let_def save_existing [OF Some])
qed

lemma delete_cases:
  "delete r i =
     (if list_ex (\<lambda>t. getId t = Some i) (rows r)
      then (NoContent, r\<lparr>rows := filter (\<lambda>t. getId t \<noteq> Some i) (rows r)\<rparr>)
      else (NotFound, r))"
  using findById_None [of r i]
  by (auto simp: delete_def deleteById_def split: option.splits)

lemma ids_update: "map getId (rows (snd (update r i fb))) = map getId (rows r)"
proof -
  have "map getId (map (\<lambda>x. if getId x = Some i then e else x) xs) = map getId xs"
    if "getId e = Some i" for e :: Task and xs
    using that by (induction xs) auto
  then show ?thesis
    by (auto simp: update_cases Let_def dest: findById_Some split: option.splits)
qed

lemma sequence_update [simp]: "sequence (snd (update r i fb)) = sequence r"
  by (simp add: update_cases Let_def split: option.splits)

lemma sequence_delete [simp]: "sequence (snd (delete r i)) = sequence r"
  by (simp add: delete_cases)

lemma repository_ok_empty: "repository_ok empty_repository"
  by (simp add: repository_ok_def empty_repository_def)

lemma repository_ok_create: "repository_ok r \<Longrightarrow> repository_ok (snd (create r fb))"
  by (auto simp: repository_ok_def create_cases list_all_iff split: option.splits)

lemma repository_ok_update: "repository_ok r \<Longrightarrow> repository_ok (snd (update r i fb))"
  unfolding repository_ok_def
  by (auto simp: ids_update)
     (auto simp: update_cases Let_def list_all_iff dest: findById_Some split: option.splits)

lemma repository_ok_delete: "repository_ok r \<Longrightarrow> repository_ok (snd (delete r i))"
  by (auto simp: repository_ok_def delete_cases list_all_iff distinct_map_filter
           split: option.splits)

lemma repository_ok_perform: "repository_ok r \<Longrightarrow> repository_ok (snd (perform c r))"
  by (cases c) (simp_all add: repository_ok_create repository_ok_update repository_ok_delete)

lemma repository_ok_perform_all: "repository_ok r \<Longrightarrow> repository_ok (perform_all cs r)"
  by (induction cs arbitrary: r) (auto simp: repository_ok_perform)


subsection \<open>Ids handed out by the repository\<close>

lemma sequence_perform: "sequence r \<le> sequence (snd (perform c r))"
  by (cases c) (simp_all add: create_cases)

lemma perform_Created:
  "perform c r = (Created t, r') \<Longrightarrow> getId t = Some (sequence r) \<and> sequence r' = sequence r + 1"
  by (cases c) (auto simp: create_cases update_cases delete_cases Let_def split: if_splits option.splits)

lemma created_keys_increasing:
  "distinct (created_keys cs r) \<and>
   list_all (\<lambda>k. case k of None \<Rightarrow> False | Some i \<Rightarrow> sequence r \<le> i) (created_keys cs r)"
proof (induction cs arbitrary: r)
  case Nil
  show ?case by simp
next
  case (Cons c cs)
  obtain a r' where p: "perform c r = (a, r')" by (cases "perform c r")
  have mono: "sequence r \<le> sequence r'"
    using sequence_perform [of r c] p by simp
  have d: "distinct (created_keys cs r')"
    and low: "list_all (\<lambda>k. case k of None \<Rightarrow> False | Some i \<Rightarrow> sequence r' \<le> i) (created_keys cs r')"
    using Cons.IH [of r'] by simp_all
  have low': "list_all (\<lambda>k. case k of None \<Rightarrow> False | Some i \<Rightarrow> sequence r \<le> i) (created_keys cs r')"
    using low mono by (auto simp: list_all_iff split: option.splits)
  show ?case
  proof (cases "\<exists>t. a = Created t")
    case True
    then obtain t where a: "a = Created t" by blast
    have k: "getId t = Some (sequence r)" and n: "sequence r' = sequence r + 1"
      using perform_Created p a by blast+
    have "getId t \<notin> set (created_keys cs r')"
      using low k n by (auto simp: list_all_iff split: option.splits)
    then show ?thesis
      using d low' k by (simp add: p a)
  next
    case False
    then have "created_keys (c # cs) r = created_keys cs r'"
      by (auto simp: p split: ResponseEntity.splits)
    then show ?thesis using d low' by simp
  qed
qed


subsection \<open>Lookup after creation\<close>

lemma find_append_last:
  "\<not> list_ex P xs \<Longrightarrow> P x \<Longrightarrow> find P (xs @ [x]) = Some x"
  by (induction xs) auto

lemma created_is_found:
  assumes "store_ok s" and "post_tasks now b s = (Json st (OneTask t), s')"
  shows "find (has_id (Some (int (id_t t)))) (tasks s') = Some t"
proof -
  have t: "id_t t = nextId s" "tasks s' = tasks s @ [t]"
    using post_tasks_201 [OF assms(2)] by simp_all
  have "\<not> list_ex (has_id (Some (int (nextId s)))) (tasks s)"
    using assms(1) by (auto simp: store_ok_def list_all_iff list_ex_iff has_id_def)
  then show ?thesis
    using t by (simp add: find_append_last has_id_def)
qed

lemma created_row_is_found:
  assumes "repository_ok r" and "create r fb = (Created t, r')"
  shows "getId t = Some (sequence r) \<and> getById r' (sequence r) = Ok t"
proof -
  have t: "getId t = Some (sequence r)" "rows r' = rows r @ [t]"
    using create_Created [OF assms(2)] by simp_all
  have "\<not> list_ex (\<lambda>x. getId x = Some (sequence r)) (rows r)"
    using assms(1) by (auto simp: repository_ok_def list_all_iff list_ex_iff split: option.splits)
  then have "findById r' (sequence r) = Some t"
    using t by (simp add: findById_def find_append_last)
  then show ?thesis
    using t by (simp add: getById_def)
qed

lemma getById_cases:
  "(getById r i = NotFound \<longleftrightarrow> \<not> list_ex (\<lambda>t. getId t = Some i) (rows r)) \<and>
   (getById r i = Ok t \<longrightarrow> getId t = Some i \<and> t \<in> set (rows r))"
  using findById_None [of r i]
  by (auto simp: getById_def dest: findById_Some split: option.splits)


subsection \<open>Deletion\<close>

lemma delete_task_missing:
  "fst (delete_task p s) = Json 404 (ErrorMsg ''not found'') \<longleftrightarrow>
     \<not> list_ex (has_id (parseInt p)) (tasks s)"
  using findIndex_None [of "has_id (parseInt p)" "tasks s"]
  by (auto simp: delete_task_def Let_def split: option.splits)

lemma splice_is_filter:
  "distinct (map id_t xs) \<Longrightarrow> findIndex (has_id i) xs = Some k \<Longrightarrow>
     take k xs @ drop (Suc k) xs = filter (\<lambda>x. \<not> has_id i x) xs"
proof (induction xs arbitrary: k)
  case Nil
  then show ?case by simp
next
  case (Cons x xs)
  show ?case
  proof (cases "has_id i x")
    case True
    then have k: "k = 0" using Cons.prems(2) by simp
    have "\<not> has_id i y" if "y \<in> set xs" for y
      using that True Cons.prems(1) by (force simp: has_id_def image_iff)
    then have "filter (\<lambda>x. \<not> has_id i x) xs = xs"
      by (simp add: filter_id_conv)
    then show ?thesis using True k by simp
  next
    case False
    then obtain j where j: "findIndex (has_id i) xs = Some j" and k: "k = Suc j"
      using Cons.prems(2) by (auto split: option.splits)
    have "take j xs @ drop (Suc j) xs = filter (\<lambda>x. \<not> has_id i x) xs"
      using Cons.IH [OF _ j] Cons.prems(1) by simp
    then show ?thesis using False k by simp
  qed
qed

lemma delete_task_found:
  assumes "store_ok s" and "list_ex (has_id (parseInt p)) (tasks s)"
  shows "\<exists>t. find (has_id (parseInt p)) (tasks s) = Some t \<and>
           delete_task p s =
             (Json 200 (OneTask t),
              s\<lparr>tasks := filter (\<lambda>x. \<not> has_id (parseInt p) x) (tasks s)\<rparr>)"
proof -
  obtain k where k: "findIndex (has_id (parseInt p)) (tasks s) = Some k"
    using assms(2) findIndex_None [of "has_id (parseInt p)" "tasks s"] by (cases "findIndex (has_id (parseInt p)) (tasks s)") auto
  have f: "find (has_id (parseInt p)) (tasks s) = Some (tasks s ! k)"
    using findIndex_Some [OF k] by simp
  have "take k (tasks s) @ drop (Suc k) (tasks s) =
      filter (\<lambda>x. \<not> has_id (parseInt p) x) (tasks s)"
    using assms(1) k by (simp add: store_ok_def splice_is_filter)
  then show ?thesis
    using k f by (simp add: delete_task_def)
qed

lemma retired_after_delete:
  assumes "store_ok s" and "delete_task p s = (Json 200 (OneTask t), s')"
  shows "parseInt p = Some (int (id_t t)) \<and> retired (id_t t) s'"
proof -
  have ex: "list_ex (has_id (parseInt p)) (tasks s)"
    using assms(2) delete_task_missing [of p s] by auto
  obtain u where u: "find (has_id (parseInt p)) (tasks s) = Some u"
    and d: "delete_task p s =
      (Json 200 (OneTask u), s\<lparr>tasks := filter (\<lambda>x. \<not> has_id (parseInt p) x) (tasks s)\<rparr>)"
    using delete_task_found [OF assms(1) ex] by blast
  have tu: "t = u" and s': "s' = s\<lparr>tasks := filter (\<lambda>x. \<not> has_id (parseInt p) x) (tasks s)\<rparr>"
    using assms(2) d by simp_all
  have h: "has_id (parseInt p) t" and m: "t \<in> set (tasks s)"
    using u tu by (auto simp: find_Some_iff)
  have "id_t t < nextId s"
    using assms(1) m by (auto simp: store_ok_def list_all_iff)
  then show ?thesis
    using h by (auto simp: retired_def s' list_ex_iff has_id_def)
qed

lemma list_ex_map: "list_ex (\<lambda>t. g t = n) xs \<longleftrightarrow> n \<in> set (map g xs)"
  by (auto simp: list_ex_iff)

lemma retired_handle: "retired n s \<Longrightarrow> retired n (snd (handle now rq s))"
proof (cases rq)
  case (GET path)
  assume "retired n s"
  then show ?thesis using GET by (simp add: get_tasks_def)
next
  case (POST path b)
  assume "retired n s"
  then have "retired n (snd (post_tasks now b s))"
    by (auto simp: retired_def post_tasks_def Let_def list_ex_iff split: option.splits json.splits)
  then show ?thesis using POST \<open>retired n s\<close> by simp
next
  case (PUT path b)
  assume r: "retired n s"
  have "retired n (snd (put_task p b s))" for p
    using r unfolding retired_def list_ex_map ids_put_task nextId_put_task .
  then show ?thesis using PUT r by (simp split: list.splits)
next
  case (DELETE path)
  assume r: "retired n s"
  have "retired n (snd (delete_task p s))" for p
    using r by (auto simp: retired_def delete_task_def Let_def list_ex_iff
        dest: in_set_takeD in_set_dropD split: option.splits)
  then show ?thesis using DELETE r by (simp split: list.splits)
qed

lemma retired_run: "retired n s \<Longrightarrow> retired n (run ops s)"
  by (induction ops arbitrary: s) (auto simp: retired_handle)

lemma retired_not_found:
  assumes "retired n s" and "parseInt p = Some (int n)"
  shows "fst (delete_task p s) = Json 404 (ErrorMsg ''not found'') \<and>
         fst (put_task p b s) = Json 404 (ErrorMsg ''not found'')"
proof -
  have no: "\<not> list_ex (has_id (parseInt p)) (tasks s)"
    using assms by (auto simp: retired_def list_ex_iff has_id_def)
  then have "find (has_id (parseInt p)) (tasks s) = None"
    by (simp add: find_None_list_ex)
  then show ?thesis
    using no by (simp add: delete_task_missing put_task_missing)
qed

lemma retired_row_after_delete:
  assumes "repository_ok r" and "fst (delete r i) = NoContent"
  shows "retired_row i (snd (delete r i))"
proof -
  have ex: "list_ex (\<lambda>t. getId t = Some i) (rows r)"
    using assms(2) by (auto simp: delete_cases split: if_splits)
  then have "i < sequence r"
    using assms(1) by (auto simp: repository_ok_def list_all_iff list_ex_iff split: option.splits)
  then show ?thesis
    using ex by (simp add: retired_row_def delete_cases list_ex_iff)
qed

lemma retired_row_perform: "retired_row i r \<Longrightarrow> retired_row i (snd (perform c r))"
proof (cases c)
  case (Create fb)
  assume "retired_row i r"
  then show ?thesis using Create by (auto simp: retired_row_def create_cases list_ex_iff)
next
  case (Update j fb)
  assume r: "retired_row i r"
  have "retired_row i (snd (update r j fb))"
    using r unfolding retired_row_def list_ex_map ids_update sequence_update .
  then show ?thesis
    using Update by simp
next
  case (Delete j)
  assume "retired_row i r"
  then show ?thesis using Delete by (auto simp: retired_row_def delete_cases list_ex_iff)
qed

lemma retired_row_perform_all: "retired_row i r \<Longrightarrow> retired_row i (perform_all cs r)"
  by (induction cs arbitrary: r) (auto simp: retired_row_perform)

section \<open>Lookup by id after creation\<close>

text \<open>
  The in-memory server has no route for \<^verbatim>\<open>GET /api/tasks/:id\<close>. After a task with id 1
  is created, a GET of \<^verbatim>\<open>/api/tasks/1\<close> is answered by the catch-all with the page, not
  with the task; a GET of \<^verbatim>\<open>/api/tasks/7\<close> on the empty store gets the page too, not a
  404. So the round trip through getById, as stated for both variants, fails there.
\<close>

theorem getById_missing_in_memory_counterexample:
  "fst (handle ''t1'' (GET [''api'', ''tasks'', ''1''])
         (snd (handle ''t0'' (POST [''api'', ''tasks''] [''title'' \<mapsto> JStr ''x'']) init_store))) =
     SendFile ''public/index.html'' \<and>
   tasks (snd (handle ''t0'' (POST [''api'', ''tasks''] [''title'' \<mapsto> JStr ''x'']) init_store)) =
     [\<lparr>id_t = 1, title = JStr ''x'', completed = JBool False, createdAt = ''t0''\<rparr>] \<and>
   fst (handle ''t1'' (GET [''api'', ''tasks'', ''7'']) init_store) = SendFile ''public/index.html''"
  by (simp add: js_eval)

text \<open>
  C1, amended. In the JPA-backed variant, in every repository that the controller's
  calls can reach, a successful create followed by getById with the returned id
  yields the record that create returned; getById answers 404 exactly when no row has
  the id, and a record it returns has exactly that id and is a row. The in-memory
  variant has no getById: every GET of \<^verbatim>\<open>/api/tasks/:id\<close> is answered with the page,
  and the store is unchanged. There the created record is the one the task list holds
  under the returned id.
\<close>

theorem lookup_after_create:
  "(create (perform_all cs empty_repository) fb = (Created u, r') \<longrightarrow>
      (\<exists>i. getId u = Some i \<and> getById r' i = Ok u)) \<and>
   (getById r i = NotFound \<longleftrightarrow> \<not> list_ex (\<lambda>x. getId x = Some i) (rows r)) \<and>
   (getById r i = Ok v \<longrightarrow> getId v = Some i \<and> v \<in> set (rows r)) \<and>
   handle now (GET [''api'', ''tasks'', p]) s = (SendFile ''public/index.html'', s) \<and>
   (post_tasks now b (run ops init_store) = (Json 201 (OneTask t), s') \<longrightarrow>
      find (has_id (Some (int (id_t t)))) (tasks s') = Some t \<and>
      get_tasks s' = (Json 200 (TaskList (tasks s')), s'))"
proof -
  have "repository_ok (perform_all cs empty_repository)"
    by (simp add: repository_ok_perform_all repository_ok_empty)
  then have "create (perform_all cs empty_repository) fb = (Created u, r') \<longrightarrow>
      (\<exists>i. getId u = Some i \<and> getById r' i = Ok u)"
    using created_row_is_found by blast
  moreover have "store_ok (run ops init_store)"
    by (simp add: store_ok_run store_ok_init)
  then have "post_tasks now b (run ops init_store) = (Json 201 (OneTask t), s') \<longrightarrow>
      find (has_id (Some (int (id_t t)))) (tasks s') = Some t"
    using created_is_found by blast
  ultimately show ?thesis
    using getById_cases [of r i v] by (simp add: get_tasks_def)
qed

theorem lookup_after_create_witness:
  "create (perform_all [] empty_repository)
     \<lparr>f_title = Some ''x'', f_description = None, f_status = None, f_dueDate = None\<rparr> =
     (Created \<lparr>getId = Some 1, getTitle = Some ''x'', getDescription = None, getStatus = TODO,
                getDueDate = None\<rparr>,
      \<lparr>rows = [\<lparr>getId = Some 1, getTitle = Some ''x'', getDescription = None, getStatus = TODO,
                 getDueDate = None\<rparr>], sequence = 2\<rparr>) \<and>
   getById \<lparr>rows = [\<lparr>getId = Some 1, getTitle = Some ''x'', getDescription = None,
                       getStatus = TODO, getDueDate = None\<rparr>], sequence = 2\<rparr> 1 =
     Ok \<lparr>getId = Some 1, getTitle = Some ''x'', getDescription = None, getStatus = TODO,
         getDueDate = None\<rparr> \<and>
   getById \<lparr>rows = [\<lparr>getId = Some 1, getTitle = Some ''x'', getDescription = None,
                       getStatus = TODO, getDueDate = None\<rparr>], sequence = 2\<rparr> 2 = NotFound \<and>
   handle ''t0'' (GET [''api'', ''tasks'', ''1'']) init_store =
     (SendFile ''public/index.html'', init_store) \<and>
   post_tasks ''t0'' [''title'' \<mapsto> JStr ''x''] (run [] init_store) =
     (Json 201 (OneTask \<lparr>id_t = 1, title = JStr ''x'', completed = JBool False, createdAt = ''t0''\<rparr>),
      \<lparr>tasks = [\<lparr>id_t = 1, title = JStr ''x'', completed = JBool False, createdAt = ''t0''\<rparr>],
       nextId = 2\<rparr>) \<and>
   find (has_id (Some 1))
     [\<lparr>id_t = 1, title = JStr ''x'', completed = JBool False, createdAt = ''t0''\<rparr>] =
     Some \<lparr>id_t = 1, title = JStr ''x'', completed = JBool False, createdAt = ''t0''\<rparr>"
proof -
  let ?fb = "\<lparr>f_title = Some ''x'', f_description = None, f_status = None, f_dueDate = None\<rparr>"
  let ?u = "\<lparr>getId = Some 1, getTitle = Some ''x'', getDescription = None, getStatus = TODO,
             getDueDate = None\<rparr>"
  let ?r' = "\<lparr>rows = [?u], sequence = 2\<rparr>"
  let ?t = "\<lparr>id_t = 1, title = JStr ''x'', completed = JBool False, createdAt = ''t0''\<rparr>"
  let ?s' = "\<lparr>tasks = [?t], nextId = 2\<rparr>"
  have h1: "create (perform_all [] empty_repository) ?fb = (Created ?u, ?r')"
    by (simp add: jpa_eval)
  have h2: "getById ?r' 2 = NotFound"
    by (simp add: jpa_eval)
  have h4: "post_tasks ''t0'' [''title'' \<mapsto> JStr ''x''] (run [] init_store) = (Json 201 (OneTask ?t), ?s')"
    by (simp add: js_eval)
  from lookup_after_create [of "[]" ?fb ?u ?r' ?r' 2 ?u "''t0''" "''1''"
      init_store "[''title'' \<mapsto> JStr ''x'']" "[]" ?t ?s'] h1 h2 h4
  show ?thesis by simp
qed

section \<open>Titles that an update stores\<close>

text \<open>
  C2. No stored task should ever have an empty or untrimmed title. The POST handler
  of the in-memory server sees to that, the PUT handler does not: it assigns the
  title of the body as it comes. After a task is created with the title \<^verbatim>\<open>"a"\<close>, its
  title is as it should be; an update with the title \<^verbatim>\<open>""\<close> is answered with 200 and
  leaves a stored task whose title is empty, and an update with the title \<^verbatim>\<open>" b "\<close>
  one whose title is not trimmed.
\<close>

theorem update_stores_title_unchecked:
  "list_all title_ok
     (tasks (run [(''t0'', POST [''api'', ''tasks''] [''title'' \<mapsto> JStr ''a''])] init_store)) \<and>
   fst (handle ''t1'' (PUT [''api'', ''tasks'', ''1''] [''title'' \<mapsto> JStr ''''])
          (run [(''t0'', POST [''api'', ''tasks''] [''title'' \<mapsto> JStr ''a''])] init_store)) =
     Json 200 (OneTask \<lparr>id_t = 1, title = JStr '''', completed = JBool False, createdAt = ''t0''\<rparr>) \<and>
   run [(''t0'', POST [''api'', ''tasks''] [''title'' \<mapsto> JStr ''a'']),
        (''t1'', PUT [''api'', ''tasks'', ''1''] [''title'' \<mapsto> JStr ''''])] init_store =
     \<lparr>tasks = [\<lparr>id_t = 1, title = JStr '''', completed = JBool False, createdAt = ''t0''\<rparr>],
      nextId = 2\<rparr> \<and>
   \<not> list_all title_ok
     (tasks (run [(''t0'', POST [''api'', ''tasks''] [''title'' \<mapsto> JStr ''a'']),
                  (''t1'', PUT [''api'', ''tasks'', ''1''] [''title'' \<mapsto> JStr ''''])] init_store)) \<and>
   run [(''t0'', POST [''api'', ''tasks''] [''title'' \<mapsto> JStr ''a'']),
        (''t1'', PUT [''api'', ''tasks'', ''1''] [''title'' \<mapsto> JStr '' b ''])] init_store =
     \<lparr>tasks = [\<lparr>id_t = 1, title = JStr '' b '', completed = JBool False, createdAt = ''t0''\<rparr>],
      nextId = 2\<rparr> \<and>
   \<not> list_all title_ok
     (tasks (run [(''t0'', POST [''api'', ''tasks''] [''title'' \<mapsto> JStr ''a'']),
                  (''t1'', PUT [''api'', ''tasks'', ''1''] [''title'' \<mapsto> JStr '' b ''])] init_store))"
  by (simp add: js_eval title_ok_def)

section \<open>Which titles create accepts\<close>




section \<open>Ids are handed out once\<close>

text \<open>
  C4. In every run of the in-memory server from its initial state, whatever requests
  are interleaved (deletions included), the ids that the successful creations return
  are strictly increasing in the order of the calls, hence pairwise distinct: an id
  that was handed out is never handed out again, also after its task is deleted. At
  every moment the stored tasks have pairwise distinct ids, all below the counter.
  In the JPA-backed variant, in every run of the controller from the empty
  repository, every successful create returns a record with an id, the ids returned
  are pairwise distinct, and so are the ids of the rows at every moment.
\<close>

theorem created_ids_never_repeat:
  "sorted_wrt (<) (created_ids ops init_store) \<and>
   distinct (created_ids ops init_store) \<and>
   distinct (map id_t (tasks (run ops init_store))) \<and>
   list_all (\<lambda>t. id_t t < nextId (run ops init_store)) (tasks (run ops init_store)) \<and>
   distinct (created_keys cs empty_repository) \<and>
   list_all (\<lambda>k. k \<noteq> None) (created_keys cs empty_repository) \<and>
   distinct (map getId (rows (perform_all cs empty_repository)))"
proof -
  have "distinct (created_keys cs empty_repository)"
    using created_keys_increasing by blast
  moreover have "list_all (\<lambda>k. k \<noteq> None) (created_keys cs empty_repository)"
    using created_keys_increasing [of cs empty_repository]
    by (auto simp: list_all_iff split: option.splits)
  moreover have "repository_ok (perform_all cs empty_repository)"
    by (simp add: repository_ok_perform_all repository_ok_empty)
  moreover
  have "sorted_wrt (<) (created_ids ops init_store)"
    using created_ids_increasing by blast
  moreover from this have "distinct (created_ids ops init_store)"
    by (simp add: strict_sorted_iff)
  moreover have "store_ok (run ops init_store)"
    by (simp add: store_ok_run store_ok_init)
  ultimately show ?thesis by (simp add: store_ok_def repository_ok_def)
qed

text \<open>
  A run with a deletion in the middle: the third creation gets the id 3, not the id 2
  that the deletion freed.
\<close>

lemma created_ids_example:
  "created_ids [(''t0'', POST [''api'', ''tasks''] [''title'' \<mapsto> JStr ''x'']),
                (''t1'', POST [''api'', ''tasks''] [''title'' \<mapsto> JStr ''y'']),
                (''t2'', DELETE [''api'', ''tasks'', ''2'']),
                (''t3'', POST [''api'', ''tasks''] [''title'' \<mapsto> JStr ''z''])] init_store =
     [1, 2, 3]"
  by (simp add: js_eval)

text \<open>
  The same run on the controller: the third creation gets the id 3 after the row of
  id 2 was deleted.
\<close>

lemma created_keys_example:
  "created_keys
     [Create \<lparr>f_title = Some ''x'', f_description = None, f_status = None, f_dueDate = None\<rparr>,
      Create \<lparr>f_title = Some ''y'', f_description = None, f_status = None, f_dueDate = None\<rparr>,
      Delete 2,
      Create \<lparr>f_title = Some ''z'', f_description = None, f_status = None, f_dueDate = None\<rparr>]
     empty_repository = [Some 1, Some 2, Some 3]"
  by (simp add: jpa_eval)

section \<open>Partial update\<close>

text \<open>
  A stored task of the in-memory variant has no description and no status. An update
  with the body \<^verbatim>\<open>{status: "DONE"}\<close> is answered with 200 and the record as it was, and
  leaves the store as it was: no status is set, on the record or in the reply.
\<close>

theorem status_update_ignored_counterexample:
  "run [(''t0'', POST [''api'', ''tasks''] [''title'' \<mapsto> JStr ''d''])] init_store =
     \<lparr>tasks = [\<lparr>id_t = 1, title = JStr ''d'', completed = JBool False, createdAt = ''t0''\<rparr>],
      nextId = 2\<rparr> \<and>
   handle ''t1'' (PUT [''api'', ''tasks'', ''1''] [''status'' \<mapsto> JStr ''DONE''])
     \<lparr>tasks = [\<lparr>id_t = 1, title = JStr ''d'', completed = JBool False, createdAt = ''t0''\<rparr>],
      nextId = 2\<rparr> =
     (Json 200 (OneTask \<lparr>id_t = 1, title = JStr ''d'', completed = JBool False, createdAt = ''t0''\<rparr>),
      \<lparr>tasks = [\<lparr>id_t = 1, title = JStr ''d'', completed = JBool False, createdAt = ''t0''\<rparr>],
       nextId = 2\<rparr>) \<and>
   map_of (task_json \<lparr>id_t = 1, title = JStr ''d'', completed = JBool False, createdAt = ''t0''\<rparr>)
     ''status'' = None \<and>
   map_of (task_json \<lparr>id_t = 1, title = JStr ''d'', completed = JBool False, createdAt = ''t0''\<rparr>)
     ''description'' = None"
  by (simp add: js_eval task_json_def)

text \<open>
  C5, amended. The partial update of the in-memory variant, on a task that exists,
  can change the title and the completed flag and nothing else: the reply is 200 with
  the updated record, which is also the stored one. Its title is the body's title
  when the body has one and the old title otherwise; its completed flag is the
  truthiness of the body's \<^verbatim>\<open>completed\<close> when the body has one and the old flag
  otherwise; id and creation time are the old ones. The tasks with other ids are
  unchanged, the number of tasks and the counter too. A field the body omits keeps
  its value, and a field the handler does not read (a \<^verbatim>\<open>status\<close> or a \<^verbatim>\<open>description\<close>)
  changes nothing.
\<close>

theorem partial_update_frame:
  assumes "find (has_id (parseInt p)) (tasks s) = Some t"
      and "put_task p b s = (r, s')"
  shows "\<exists>t'. r = Json 200 (OneTask t') \<and>
           find (has_id (parseInt p)) (tasks s') = Some t' \<and>
           title t' = (case b ''title'' of None \<Rightarrow> title t | Some v \<Rightarrow> v) \<and>
           completed t' = (case b ''completed'' of None \<Rightarrow> completed t | Some c \<Rightarrow> JBool (truthy c)) \<and>
           id_t t' = id_t t \<and> createdAt t' = createdAt t \<and>
           length (tasks s') = length (tasks s) \<and>
           filter (\<lambda>x. \<not> has_id (parseInt p) x) (tasks s') =
             filter (\<lambda>x. \<not> has_id (parseInt p) x) (tasks s) \<and>
           nextId s' = nextId s"
proof -
  let ?t' = "assign_fields b t"
  have r: "r = Json 200 (OneTask ?t')"
    and s': "s' = s\<lparr>tasks := assign_found (has_id (parseInt p)) (assign_fields b) (tasks s)\<rparr>"
    using assms put_task_found [of p s t b] by simp_all
  have "find (has_id (parseInt p)) (tasks s') = Some ?t'"
    using assms(1) by (simp add: s' find_assign_found)
  moreover have "title ?t' = (case b ''title'' of None \<Rightarrow> title t | Some v \<Rightarrow> v)"
    by (simp add: assign_fields_def split: option.splits)
  moreover have "completed ?t' =
      (case b ''completed'' of None \<Rightarrow> completed t | Some c \<Rightarrow> JBool (truthy c))"
    by (simp add: assign_fields_def split: option.splits)
  moreover have "filter (\<lambda>x. \<not> has_id (parseInt p) x) (tasks s') =
      filter (\<lambda>x. \<not> has_id (parseInt p) x) (tasks s)"
    by (simp add: s' filter_assign_found)
  ultimately show ?thesis
    by (simp add: r s')
qed


theorem partial_update_frame_witness:
  "find (has_id (parseInt ''1''))
     (tasks \<lparr>tasks = [\<lparr>id_t = 1, title = JStr ''d'', completed = JBool False, createdAt = ''t0''\<rparr>],
             nextId = 2\<rparr>) =
     Some \<lparr>id_t = 1, title = JStr ''d'', completed = JBool False, createdAt = ''t0''\<rparr> \<and>
   put_task ''1'' [''completed'' \<mapsto> JNum 1]
     \<lparr>tasks = [\<lparr>id_t = 1, title = JStr ''d'', completed = JBool False, createdAt = ''t0''\<rparr>],
      nextId = 2\<rparr> =
     (Json 200 (OneTask \<lparr>id_t = 1, title = JStr ''d'', completed = JBool True, createdAt = ''t0''\<rparr>),
      \<lparr>tasks = [\<lparr>id_t = 1, title = JStr ''d'', completed = JBool True, createdAt = ''t0''\<rparr>],
       nextId = 2\<rparr>) \<and>
   put_task ''1'' [''status'' \<mapsto> JStr ''DONE'']
     \<lparr>tasks = [\<lparr>id_t = 1, title = JStr ''d'', completed = JBool False, createdAt = ''t0''\<rparr>],
      nextId = 2\<rparr> =
     (Json 200 (OneTask \<lparr>id_t = 1, title = JStr ''d'', completed = JBool False, createdAt = ''t0''\<rparr>),
      \<lparr>tasks = [\<lparr>id_t = 1, title = JStr ''d'', completed = JBool False, createdAt = ''t0''\<rparr>],
       nextId = 2\<rparr>)"
proof -
  let ?t = "\<lparr>id_t = 1, title = JStr ''d'', completed = JBool False, createdAt = ''t0''\<rparr>"
  let ?s = "\<lparr>tasks = [?t], nextId = 2\<rparr>"
  have h1: "find (has_id (parseInt ''1'')) (tasks ?s) = Some ?t"
    by (simp add: js_eval)
  have h2: "put_task ''1'' [''completed'' \<mapsto> JNum 1] ?s =
      (Json 200 (OneTask (?t\<lparr>completed := JBool True\<rparr>)), ?s\<lparr>tasks := [?t\<lparr>completed := JBool True\<rparr>]\<rparr>)"
    by (simp add: js_eval)
  have h3: "put_task ''1'' [''status'' \<mapsto> JStr ''DONE''] ?s = (Json 200 (OneTask ?t), ?s)"
    by (simp add: js_eval)
  from partial_update_frame [OF h1 h2] h1 h2 h3 show ?thesis by simp
qed

section \<open>Update leaves id and creation time alone\<close>

text \<open>
  C6. An update never changes an id or a creation time. In the in-memory variant
  (partial update) the ids and the creation times of the stored tasks are, position by
  position, what they were, and the record in the reply has the id and the creation
  time of the task that was found. In the JPA-backed variant (full replace) the ids of
  the rows are, position by position, what they were, and the record in the reply has
  the id that was asked for, which is the id of the row that was found; that variant's
  entity has no creation time.
\<close>

theorem update_keeps_id_and_createdAt:
  "map id_t (tasks (snd (put_task p b s))) = map id_t (tasks s) \<and>
   map createdAt (tasks (snd (put_task p b s))) = map createdAt (tasks s) \<and>
   (put_task p b s = (Json st (OneTask t'), s') \<longrightarrow>
      (\<exists>t. find (has_id (parseInt p)) (tasks s) = Some t \<and>
           id_t t' = id_t t \<and> createdAt t' = createdAt t)) \<and>
   map getId (rows (snd (update r i fb))) = map getId (rows r) \<and>
   (fst (update r i fb) = Ok u \<longrightarrow>
      getId u = Some i \<and> (\<exists>e. findById r i = Some e \<and> getId e = Some i))"
proof -
  have "put_task p b s = (Json st (OneTask t'), s') \<longrightarrow>
      (\<exists>t. find (has_id (parseInt p)) (tasks s) = Some t \<and>
           id_t t' = id_t t \<and> createdAt t' = createdAt t)"
    by (auto simp: put_task_def Let_def split: option.splits)
  moreover have "fst (update r i fb) = Ok u \<longrightarrow>
      getId u = Some i \<and> (\<exists>e. findById r i = Some e \<and> getId e = Some i)"
    by (auto simp: update_cases Let_def dest: findById_Some split: if_splits option.splits)
  ultimately show ?thesis
    by (simp add: ids_put_task stamps_put_task ids_update)
qed

theorem update_keeps_id_and_createdAt_witness:
  "put_task ''1'' [''title'' \<mapsto> JStr ''new'', ''id'' \<mapsto> JNum 9, ''createdAt'' \<mapsto> JStr ''never'']
     \<lparr>tasks = [\<lparr>id_t = 1, title = JStr ''x'', completed = JBool False, createdAt = ''t0''\<rparr>],
      nextId = 2\<rparr> =
     (Json 200 (OneTask \<lparr>id_t = 1, title = JStr ''new'', completed = JBool False, createdAt = ''t0''\<rparr>),
      \<lparr>tasks = [\<lparr>id_t = 1, title = JStr ''new'', completed = JBool False, createdAt = ''t0''\<rparr>],
       nextId = 2\<rparr>) \<and>
   update \<lparr>rows = [\<lparr>getId = Some 1, getTitle = Some ''x'', getDescription = Some ''d'',
                     getStatus = TODO, getDueDate = None\<rparr>], sequence = 2\<rparr> 1
     \<lparr>f_title = Some ''new'', f_description = None, f_status = Some DONE, f_dueDate = None\<rparr> =
     (Ok \<lparr>getId = Some 1, getTitle = Some ''new'', getDescription = None, getStatus = DONE,
          getDueDate = None\<rparr>,
      \<lparr>rows = [\<lparr>getId = Some 1, getTitle = Some ''new'', getDescription = None,
                 getStatus = DONE, getDueDate = None\<rparr>], sequence = 2\<rparr>) \<and>
   find (has_id (parseInt ''1''))
     [\<lparr>id_t = 1, title = JStr ''x'', completed = JBool False, createdAt = ''t0''\<rparr>] =
     Some \<lparr>id_t = 1, title = JStr ''x'', completed = JBool False, createdAt = ''t0''\<rparr> \<and>
   findById \<lparr>rows = [\<lparr>getId = Some 1, getTitle = Some ''x'', getDescription = Some ''d'',
                       getStatus = TODO, getDueDate = None\<rparr>], sequence = 2\<rparr> 1 =
     Some \<lparr>getId = Some 1, getTitle = Some ''x'', getDescription = Some ''d'',
           getStatus = TODO, getDueDate = None\<rparr>"
proof -
  let ?t = "\<lparr>id_t = 1, title = JStr ''x'', completed = JBool False, createdAt = ''t0''\<rparr>"
  let ?s = "\<lparr>tasks = [?t], nextId = 2\<rparr>"
  let ?b = "[''title'' \<mapsto> JStr ''new'', ''id'' \<mapsto> JNum 9, ''createdAt'' \<mapsto> JStr ''never'']"
  let ?e = "\<lparr>getId = Some 1, getTitle = Some ''x'', getDescription = Some ''d'',
             getStatus = TODO, getDueDate = None\<rparr>"
  let ?r = "\<lparr>rows = [?e], sequence = 2\<rparr>"
  let ?fb = "\<lparr>f_title = Some ''new'', f_description = None, f_status = Some DONE, f_dueDate = None\<rparr>"
  let ?u = "\<lparr>getId = Some 1, getTitle = Some ''new'', getDescription = None, getStatus = DONE,
             getDueDate = None\<rparr>"
  have h1: "put_task ''1'' ?b ?s =
      (Json 200 (OneTask (?t\<lparr>title := JStr ''new''\<rparr>)), ?s\<lparr>tasks := [?t\<lparr>title := JStr ''new''\<rparr>]\<rparr>)"
    by (simp add: js_eval)
  have h2: "update ?r 1 ?fb = (Ok ?u, ?r\<lparr>rows := [?u]\<rparr>)"
    by (simp add: jpa_eval)
  have h3: "find (has_id (parseInt ''1'')) [?t] = Some ?t"
    by (simp add: js_eval)
  have h4: "findById ?r 1 = Some ?e"
    by (simp add: jpa_eval)
  from update_keeps_id_and_createdAt [of "''1''" ?b ?s 200 "?t\<lparr>title := JStr ''new''\<rparr>"
      "?s\<lparr>tasks := [?t\<lparr>title := JStr ''new''\<rparr>]\<rparr>" ?r 1 ?fb ?u] h1 h2 h3 h4
  show ?thesis by simp
qed

section \<open>Deletion\<close>

text \<open>
  The controller of the JPA-backed variant answers a successful delete with 204 and no
  body: the removed record is not returned. And in the in-memory variant a GET of
  \<^verbatim>\<open>/api/tasks/1\<close> after task 1 was deleted is answered with the page, not with a 404.
\<close>

theorem delete_returns_record_counterexample:
  "create empty_repository
     \<lparr>f_title = Some ''x'', f_description = None, f_status = None, f_dueDate = None\<rparr> =
     (Created \<lparr>getId = Some 1, getTitle = Some ''x'', getDescription = None, getStatus = TODO,
                getDueDate = None\<rparr>,
      \<lparr>rows = [\<lparr>getId = Some 1, getTitle = Some ''x'', getDescription = None, getStatus = TODO,
                 getDueDate = None\<rparr>], sequence = 2\<rparr>) \<and>
   delete \<lparr>rows = [\<lparr>getId = Some 1, getTitle = Some ''x'', getDescription = None, getStatus = TODO,
                     getDueDate = None\<rparr>], sequence = 2\<rparr> 1 =
     (NoContent, \<lparr>rows = [], sequence = 2\<rparr>) \<and>
   handle ''t1'' (DELETE [''api'', ''tasks'', ''1''])
     \<lparr>tasks = [\<lparr>id_t = 1, title = JStr ''x'', completed = JBool False, createdAt = ''t0''\<rparr>],
      nextId = 2\<rparr> =
     (Json 200 (OneTask \<lparr>id_t = 1, title = JStr ''x'', completed = JBool False, createdAt = ''t0''\<rparr>),
      \<lparr>tasks = [], nextId = 2\<rparr>) \<and>
   handle ''t2'' (GET [''api'', ''tasks'', ''1'']) \<lparr>tasks = [], nextId = 2\<rparr> =
     (SendFile ''public/index.html'', \<lparr>tasks = [], nextId = 2\<rparr>)"
  by (simp add: js_eval jpa_eval)

text \<open>
  C7, amended. In both variants delete(id) fails with 404 exactly when no task has
  that id. Otherwise it removes the task and leaves every other task, their order and
  the counter as they were; the in-memory variant replies 200 with the removed record,
  the JPA-backed variant replies 204 with no body. After a successful delete(id), and
  after any further requests, delete(id) fails with 404 again, and so does the lookup
  by that id: getById in the JPA-backed variant, the lookup of the PUT handler in the
  in-memory variant, which has no getById. The states are those a run from the initial
  state reaches.
\<close>

theorem delete_then_not_found:
  "(fst (delete_task p s0) = Json 404 (ErrorMsg ''not found'') \<longleftrightarrow>
      \<not> list_ex (has_id (parseInt p)) (tasks s0)) \<and>
   (list_ex (has_id (parseInt p)) (tasks (run ops init_store)) \<longrightarrow>
      (\<exists>t. find (has_id (parseInt p)) (tasks (run ops init_store)) = Some t \<and>
           delete_task p (run ops init_store) =
             (Json 200 (OneTask t),
              (run ops init_store)
                \<lparr>tasks := filter (\<lambda>x. \<not> has_id (parseInt p) x) (tasks (run ops init_store))\<rparr>)) \<and>
      fst (delete_task p (run ops' (snd (delete_task p (run ops init_store))))) =
        Json 404 (ErrorMsg ''not found'') \<and>
      fst (put_task p b (run ops' (snd (delete_task p (run ops init_store))))) =
        Json 404 (ErrorMsg ''not found'')) \<and>
   (fst (delete r0 i) = NotFound \<longleftrightarrow> \<not> list_ex (\<lambda>t. getId t = Some i) (rows r0)) \<and>
   (list_ex (\<lambda>t. getId t = Some i) (rows r0) \<longrightarrow>
      delete r0 i = (NoContent, r0\<lparr>rows := filter (\<lambda>t. getId t \<noteq> Some i) (rows r0)\<rparr>)) \<and>
   (list_ex (\<lambda>t. getId t = Some i) (rows (perform_all cs empty_repository)) \<longrightarrow>
      getById (perform_all cs' (snd (delete (perform_all cs empty_repository) i))) i = NotFound \<and>
      fst (delete (perform_all cs' (snd (delete (perform_all cs empty_repository) i))) i) =
        NotFound)"
proof -
  let ?s = "run ops init_store"
  let ?r = "perform_all cs empty_repository"
  have ok: "store_ok ?s"
    by (simp add: store_ok_run store_ok_init)
  have js: "(\<exists>t. find (has_id (parseInt p)) (tasks ?s) = Some t \<and>
           delete_task p ?s =
             (Json 200 (OneTask t),
              ?s\<lparr>tasks := filter (\<lambda>x. \<not> has_id (parseInt p) x) (tasks ?s)\<rparr>)) \<and>
      fst (delete_task p (run ops' (snd (delete_task p ?s)))) = Json 404 (ErrorMsg ''not found'') \<and>
      fst (put_task p b (run ops' (snd (delete_task p ?s)))) = Json 404 (ErrorMsg ''not found'')"
    if ex: "list_ex (has_id (parseInt p)) (tasks ?s)"
  proof -
    obtain t where f: "find (has_id (parseInt p)) (tasks ?s) = Some t"
      and d: "delete_task p ?s =
        (Json 200 (OneTask t), ?s\<lparr>tasks := filter (\<lambda>x. \<not> has_id (parseInt p) x) (tasks ?s)\<rparr>)"
      using delete_task_found [OF ok ex] by blast
    have sd: "snd (delete_task p ?s) =
        ?s\<lparr>tasks := filter (\<lambda>x. \<not> has_id (parseInt p) x) (tasks ?s)\<rparr>"
      by (simp only: d snd_conv)
    have "parseInt p = Some (int (id_t t))" and "retired (id_t t) (snd (delete_task p ?s))"
      using retired_after_delete [OF ok d] unfolding sd by blast+
    then have "fst (delete_task p (run ops' (snd (delete_task p ?s)))) =
        Json 404 (ErrorMsg ''not found'') \<and>
      fst (put_task p b (run ops' (snd (delete_task p ?s)))) = Json 404 (ErrorMsg ''not found'')"
      by (intro retired_not_found retired_run)
    then show ?thesis using f d by blast
  qed
  have rok: "repository_ok ?r"
    by (simp add: repository_ok_perform_all repository_ok_empty)
  have jpa: "getById (perform_all cs' (snd (delete ?r i))) i = NotFound \<and>
      fst (delete (perform_all cs' (snd (delete ?r i))) i) = NotFound"
    if ex: "list_ex (\<lambda>t. getId t = Some i) (rows ?r)"
  proof -
    have "fst (delete ?r i) = NoContent"
      using ex by (simp add: delete_cases)
    then have "retired_row i (perform_all cs' (snd (delete ?r i)))"
      by (intro retired_row_perform_all retired_row_after_delete rok)
    then have "\<not> list_ex (\<lambda>t. getId t = Some i) (rows (perform_all cs' (snd (delete ?r i))))"
      by (simp add: retired_row_def)
    then show ?thesis
      using getById_cases by (simp add: delete_cases)
  qed
  show ?thesis
    using js jpa by (simp add: delete_task_missing delete_cases)
qed

theorem delete_then_not_found_witness:
  "list_ex (has_id (parseInt ''1''))
     (tasks (run [(''t0'', POST [''api'', ''tasks''] [''title'' \<mapsto> JStr ''x'']),
                  (''t1'', POST [''api'', ''tasks''] [''title'' \<mapsto> JStr ''y''])] init_store)) \<and>
   delete_task ''1''
     (run [(''t0'', POST [''api'', ''tasks''] [''title'' \<mapsto> JStr ''x'']),
           (''t1'', POST [''api'', ''tasks''] [''title'' \<mapsto> JStr ''y''])] init_store) =
     (Json 200 (OneTask \<lparr>id_t = 1, title = JStr ''x'', completed = JBool False, createdAt = ''t0''\<rparr>),
      \<lparr>tasks = [\<lparr>id_t = 2, title = JStr ''y'', completed = JBool False, createdAt = ''t1''\<rparr>],
       nextId = 3\<rparr>) \<and>
   fst (delete_task ''1''
     (run [(''t2'', POST [''api'', ''tasks''] [''title'' \<mapsto> JStr ''z''])]
       (snd (delete_task ''1''
         (run [(''t0'', POST [''api'', ''tasks''] [''title'' \<mapsto> JStr ''x'']),
               (''t1'', POST [''api'', ''tasks''] [''title'' \<mapsto> JStr ''y''])] init_store))))) =
     Json 404 (ErrorMsg ''not found'') \<and>
   list_ex (\<lambda>t. getId t = Some 1)
     (rows (perform_all
        [Create \<lparr>f_title = Some ''x'', f_description = None, f_status = None, f_dueDate = None\<rparr>,
         Create \<lparr>f_title = Some ''y'', f_description = None, f_status = None, f_dueDate = None\<rparr>]
        empty_repository)) \<and>
   delete (perform_all
        [Create \<lparr>f_title = Some ''x'', f_description = None, f_status = None, f_dueDate = None\<rparr>,
         Create \<lparr>f_title = Some ''y'', f_description = None, f_status = None, f_dueDate = None\<rparr>]
        empty_repository) 1 =
     (NoContent,
      \<lparr>rows = [\<lparr>getId = Some 2, getTitle = Some ''y'', getDescription = None, getStatus = TODO,
                 getDueDate = None\<rparr>], sequence = 3\<rparr>) \<and>
   getById (perform_all
        [Create \<lparr>f_title = Some ''z'', f_description = None, f_status = None, f_dueDate = None\<rparr>]
        (snd (delete (perform_all
          [Create \<lparr>f_title = Some ''x'', f_description = None, f_status = None, f_dueDate = None\<rparr>,
           Create \<lparr>f_title = Some ''y'', f_description = None, f_status = None, f_dueDate = None\<rparr>]
          empty_repository) 1))) 1 = NotFound"
proof -
  let ?ops = "[(''t0'', POST [''api'', ''tasks''] [''title'' \<mapsto> JStr ''x'']),
               (''t1'', POST [''api'', ''tasks''] [''title'' \<mapsto> JStr ''y''])]"
  let ?ops' = "[(''t2'', POST [''api'', ''tasks''] [''title'' \<mapsto> JStr ''z''])]"
  let ?cs = "[Create \<lparr>f_title = Some ''x'', f_description = None, f_status = None, f_dueDate = None\<rparr>,
              Create \<lparr>f_title = Some ''y'', f_description = None, f_status = None, f_dueDate = None\<rparr>]"
  let ?cs' = "[Create \<lparr>f_title = Some ''z'', f_description = None, f_status = None, f_dueDate = None\<rparr>]"
  have s: "run ?ops init_store =
      \<lparr>tasks = [\<lparr>id_t = 1, title = JStr ''x'', completed = JBool False, createdAt = ''t0''\<rparr>,
                \<lparr>id_t = 2, title = JStr ''y'', completed = JBool False, createdAt = ''t1''\<rparr>],
       nextId = 3\<rparr>"
    by (simp add: js_eval)
  have r: "perform_all ?cs empty_repository =
      \<lparr>rows = [\<lparr>getId = Some 1, getTitle = Some ''x'', getDescription = None, getStatus = TODO,
                 getDueDate = None\<rparr>,
               \<lparr>getId = Some 2, getTitle = Some ''y'', getDescription = None, getStatus = TODO,
                 getDueDate = None\<rparr>], sequence = 3\<rparr>"
    by (simp add: jpa_eval)
  have h1: "list_ex (has_id (parseInt ''1'')) (tasks (run ?ops init_store))"
    unfolding s by (simp add: js_eval)
  have h2: "list_ex (\<lambda>t. getId t = Some 1) (rows (perform_all ?cs empty_repository))"
    unfolding r by simp
  have h3: "delete_task ''1'' (run ?ops init_store) =
      (Json 200 (OneTask \<lparr>id_t = 1, title = JStr ''x'', completed = JBool False, createdAt = ''t0''\<rparr>),
       \<lparr>tasks = [\<lparr>id_t = 2, title = JStr ''y'', completed = JBool False, createdAt = ''t1''\<rparr>],
        nextId = 3\<rparr>)"
    unfolding s by (simp add: js_eval)
  have h4: "delete (perform_all ?cs empty_repository) 1 =
      (NoContent,
       \<lparr>rows = [\<lparr>getId = Some 2, getTitle = Some ''y'', getDescription = None, getStatus = TODO,
                  getDueDate = None\<rparr>], sequence = 3\<rparr>)"
    unfolding r by (simp add: jpa_eval)
  note inst = delete_then_not_found [of "''1''" init_store ?ops ?ops' Map.empty empty_repository 1 ?cs ?cs']
  from inst h1 have a: "fst (delete_task ''1'' (run ?ops' (snd (delete_task ''1'' (run ?ops init_store))))) =
      Json 404 (ErrorMsg ''not found'')"
    by blast
  from inst h2 have b: "getById (perform_all ?cs' (snd (delete (perform_all ?cs empty_repository) 1))) 1 =
      NotFound"
    by blast
  from h1 h2 h3 h4 a b show ?thesis
    by blast
qed

section \<open>Defaults at creation\<close>

text \<open>
  C8. A record that create returns is the record it stored, appended to the
  collection. In the in-memory variant its completed flag is \<^verbatim>\<open>false\<close>, whatever the
  body says. In the JPA-backed variant its status is TODO whenever the body omits the
  status, by the default of the entity.
\<close>

theorem default_status:
  "(post_tasks now b s = (Json 201 (OneTask t), s') \<longrightarrow>
      completed t = JBool False \<and> tasks s' = tasks s @ [t]) \<and>
   (f_status fb = None \<longrightarrow> create r fb = (Created u, r') \<longrightarrow>
      getStatus u = TODO \<and> rows r' = rows r @ [u])"
proof -
  have "post_tasks now b s = (Json 201 (OneTask t), s') \<longrightarrow>
      completed t = JBool False \<and> tasks s' = tasks s @ [t]"
    using post_tasks_201 by blast
  moreover have "getStatus u = TODO \<and> rows r' = rows r @ [u]"
    if "f_status fb = None" and "create r fb = (Created u, r')"
    using create_Created [OF that(2)] that(1) by (simp add: fromBody_def)
  ultimately show ?thesis by blast
qed

theorem default_status_witness:
  "post_tasks ''t0'' [''title'' \<mapsto> JStr ''x''] init_store =
     (Json 201 (OneTask \<lparr>id_t = 1, title = JStr ''x'', completed = JBool False, createdAt = ''t0''\<rparr>),
      \<lparr>tasks = [\<lparr>id_t = 1, title = JStr ''x'', completed = JBool False, createdAt = ''t0''\<rparr>],
       nextId = 2\<rparr>) \<and>
   f_status \<lparr>f_title = Some ''x'', f_description = None, f_status = None, f_dueDate = None\<rparr> =
     None \<and>
   create empty_repository
     \<lparr>f_title = Some ''x'', f_description = None, f_status = None, f_dueDate = None\<rparr> =
     (Created \<lparr>getId = Some 1, getTitle = Some ''x'', getDescription = None, getStatus = TODO,
                getDueDate = None\<rparr>,
      \<lparr>rows = [\<lparr>getId = Some 1, getTitle = Some ''x'', getDescription = None, getStatus = TODO,
                 getDueDate = None\<rparr>], sequence = 2\<rparr>) \<and>
   getStatus \<lparr>getId = Some 1, getTitle = Some ''x'', getDescription = None, getStatus = TODO,
              getDueDate = None\<rparr> = TODO"
proof -
  let ?t = "\<lparr>id_t = 1, title = JStr ''x'', completed = JBool False, createdAt = ''t0''\<rparr>"
  let ?fb = "\<lparr>f_title = Some ''x'', f_description = None, f_status = None, f_dueDate = None\<rparr>"
  let ?u = "\<lparr>getId = Some 1, getTitle = Some ''x'', getDescription = None, getStatus = TODO,
             getDueDate = None\<rparr>"
  have h1: "post_tasks ''t0'' [''title'' \<mapsto> JStr ''x''] init_store =
      (Json 201 (OneTask ?t), \<lparr>tasks = [?t], nextId = 2\<rparr>)"
    by (simp add: js_eval)
  have h2: "f_status ?fb = None"
    by simp
  have h3: "create empty_repository ?fb = (Created ?u, \<lparr>rows = [?u], sequence = 2\<rparr>)"
    by (simp add: jpa_eval)
  from default_status [of "''t0''" "[''title'' \<mapsto> JStr ''x'']" init_store ?t
      "\<lparr>tasks = [?t], nextId = 2\<rparr>" ?fb empty_repository ?u "\<lparr>rows = [?u], sequence = 2\<rparr>"]
    h1 h2 h3
  show ?thesis by simp
qed

section \<open>The completed flag is a boolean\<close>

text \<open>
  C9. In the in-memory variant, after every run from the initial state the completed
  field of every stored task is a boolean. A creation stores \<^verbatim>\<open>false\<close>; an update
  whose body carries \<^verbatim>\<open>completed\<close>, of any JSON type, replies with and stores the
  boolean truthiness of that value.
\<close>

theorem completed_is_boolean:
  "list_all (\<lambda>t. is_boolean (completed t)) (tasks (run ops init_store)) \<and>
   (post_tasks now b s = (Json 201 (OneTask t), s') \<longrightarrow> completed t = JBool False) \<and>
   (b ''completed'' = Some c \<longrightarrow> find (has_id (parseInt p)) (tasks s) = Some t \<longrightarrow>
      fst (put_task p b s) = Json 200 (OneTask (assign_fields b t)) \<and>
      find (has_id (parseInt p)) (tasks (snd (put_task p b s))) = Some (assign_fields b t) \<and>
      completed (assign_fields b t) = JBool (truthy c))"
proof -
  have "list_all (\<lambda>t. is_boolean (completed t)) (tasks (run ops init_store))"
    by (rule booleans_run) (simp add: init_store_def)
  moreover have "post_tasks now b s = (Json 201 (OneTask t), s') \<longrightarrow> completed t = JBool False"
    using post_tasks_201 by blast
  moreover have "completed (assign_fields b t) = JBool (truthy c)" if "b ''completed'' = Some c"
    using that by (simp add: assign_fields_def split: option.splits)
  ultimately show ?thesis
    by (simp add: put_task_def find_assign_found)
qed

theorem completed_is_boolean_witness:
  "list_all (\<lambda>t. is_boolean (completed t))
     (tasks (run [(''t0'', POST [''api'', ''tasks''] [''title'' \<mapsto> JStr ''x'']),
                  (''t1'', PUT [''api'', ''tasks'', ''1''] [''completed'' \<mapsto> JStr ''yes''])]
               init_store)) \<and>
   post_tasks ''t0'' [''title'' \<mapsto> JStr ''x''] init_store =
     (Json 201 (OneTask \<lparr>id_t = 1, title = JStr ''x'', completed = JBool False, createdAt = ''t0''\<rparr>),
      \<lparr>tasks = [\<lparr>id_t = 1, title = JStr ''x'', completed = JBool False, createdAt = ''t0''\<rparr>],
       nextId = 2\<rparr>) \<and>
   [''completed'' \<mapsto> JStr ''yes''] ''completed'' = Some (JStr ''yes'') \<and>
   find (has_id (parseInt ''1''))
     (tasks \<lparr>tasks = [\<lparr>id_t = 1, title = JStr ''x'', completed = JBool False, createdAt = ''t0''\<rparr>],
             nextId = 2\<rparr>) =
     Some \<lparr>id_t = 1, title = JStr ''x'', completed = JBool False, createdAt = ''t0''\<rparr> \<and>
   tasks (snd (put_task ''1'' [''completed'' \<mapsto> JStr ''yes'']
     \<lparr>tasks = [\<lparr>id_t = 1, title = JStr ''x'', completed = JBool False, createdAt = ''t0''\<rparr>],
      nextId = 2\<rparr>)) =
     [\<lparr>id_t = 1, title = JStr ''x'', completed = JBool True, createdAt = ''t0''\<rparr>]"
proof -
  let ?t = "\<lparr>id_t = 1, title = JStr ''x'', completed = JBool False, createdAt = ''t0''\<rparr>"
  let ?s = "\<lparr>tasks = [?t], nextId = 2\<rparr>"
  let ?b = "[''completed'' \<mapsto> JStr ''yes'']"
  have h1: "post_tasks ''t0'' [''title'' \<mapsto> JStr ''x''] init_store = (Json 201 (OneTask ?t), ?s)"
    by (simp add: js_eval)
  have h2: "?b ''completed'' = Some (JStr ''yes'')"
    by simp
  have h3: "find (has_id (parseInt ''1'')) (tasks ?s) = Some ?t"
    by (simp add: js_eval)
  have h4: "tasks (snd (put_task ''1'' ?b ?s)) = [?t\<lparr>completed := JBool True\<rparr>]"
    by (simp add: js_eval)
  from completed_is_boolean [of "[(''t0'', POST [''api'', ''tasks''] [''title'' \<mapsto> JStr ''x'']),
        (''t1'', PUT [''api'', ''tasks'', ''1''] ?b)]" "''t0''" "[''title'' \<mapsto> JStr ''x'']"
        init_store ?t ?s "JStr ''yes''" "''1''"]
    h1 h2 h3 h4
  show ?thesis by simp
qed

section \<open>Creation in the in-memory variant reads the title only\<close>

text \<open>
  C10. In the in-memory variant the POST handler reads nothing of the body but
  \<^verbatim>\<open>title\<close>: two bodies with the same title (absent in both, or the same value) get the
  same reply and leave the same store, whatever other fields (\<^verbatim>\<open>id\<close>, \<^verbatim>\<open>completed\<close>,
  \<^verbatim>\<open>createdAt\<close>, ...) they carry, for the same clock value. The reply, and so the
  record, depends on the store through its counter alone.
\<close>

theorem create_reads_only_title:
  "b1 ''title'' = b2 ''title'' \<Longrightarrow>
     post_tasks now b1 s = post_tasks now b2 s \<and>
     (nextId s = nextId s2 \<longrightarrow> fst (post_tasks now b1 s) = fst (post_tasks now b2 s2))"
  by (auto simp: post_tasks_def Let_def split: option.splits json.splits)

theorem create_reads_only_title_witness:
  "[''title'' \<mapsto> JStr '' x '', ''id'' \<mapsto> JNum 99, ''completed'' \<mapsto> JBool True,
      ''createdAt'' \<mapsto> JStr ''1999''] ''title'' = [''title'' \<mapsto> JStr '' x ''] ''title'' \<and>
   post_tasks ''t0'' [''title'' \<mapsto> JStr '' x '', ''id'' \<mapsto> JNum 99, ''completed'' \<mapsto> JBool True,
      ''createdAt'' \<mapsto> JStr ''1999''] init_store =
   post_tasks ''t0'' [''title'' \<mapsto> JStr '' x ''] init_store \<and>
   post_tasks ''t0'' [''title'' \<mapsto> JStr '' x ''] init_store =
     (Json 201 (OneTask \<lparr>id_t = 1, title = JStr ''x'', completed = JBool False, createdAt = ''t0''\<rparr>),
      \<lparr>tasks = [\<lparr>id_t = 1, title = JStr ''x'', completed = JBool False, createdAt = ''t0''\<rparr>],
       nextId = 2\<rparr>)"
  using create_reads_only_title [of "[''title'' \<mapsto> JStr '' x '', ''id'' \<mapsto> JNum 99,
      ''completed'' \<mapsto> JBool True, ''createdAt'' \<mapsto> JStr ''1999'']"
      "[''title'' \<mapsto> JStr '' x '']" "''t0''" init_store init_store]
  by (simp add: js_eval)

end
